theory Spec2Isabelle
  imports Complex_Main "HOL-Library.AList"
begin

section \<open>Python values and strings\<close>

text \<open>
  The analysers return Python dictionaries whose values are the values \<open>json.loads\<close>
  produces, together with the values the code itself stores. A dictionary is an association
  list in insertion order with at most one entry per key.

  A Python string is represented by the bytes of its UTF-8 encoding (a lone surrogate by
  its three-byte form). Whether a brace occurs, which of two braces comes first, the slice
  from the first opening brace to the last closing brace, the segments between full stops,
  whether an ASCII keyword occurs, and concatenation are the same on the encoding as on the
  string. \<open>str.lower\<close>, \<open>str.strip\<close> and the prefix of a number of characters are not, and
  they are library functions: they are parameters of the model, as are \<open>json.loads\<close> and
  the rounding of float arithmetic.

  A finite float is represented by its value, a rational. An arithmetic operation with a
  float operand is the exact operation followed by rounding to the nearest float; the
  literal \<open>0.3\<close> is the rounding of three tenths.
\<close>

datatype pyval =
    PNone
  | PBool bool
  | PInt int
  | PFloat rat
  | PNaN
  | PInfinity bool
  | PStr string
  | PList "pyval list"
  | PDict "(string \<times> pyval) list"

type_synonym pydict = "(string \<times> pyval) list"

datatype loads_result = Parsed pydict | JSONDecodeError | OtherError string

record pylib =
  lower :: "string \<Rightarrow> string"  \<comment> \<open>\<open>s.lower()\<close>\<close>
  strip :: "string \<Rightarrow> string"  \<comment> \<open>\<open>s.strip()\<close>\<close>
  str_prefix :: "nat \<Rightarrow> string \<Rightarrow> string"  \<comment> \<open>\<open>s[:n]\<close>\<close>
  fround :: "rat \<Rightarrow> rat"  \<comment> \<open>rounding to the nearest float\<close>
  json_loads :: "string \<Rightarrow> loads_result"
    \<comment> \<open>\<open>json.loads\<close> on a string that starts with an opening brace: a dictionary,
        \<open>JSONDecodeError\<close>, or another exception (a \<open>RecursionError\<close> on deep nesting),
        which only the outer handler catches\<close>

definition setitem :: "string \<Rightarrow> pyval \<Rightarrow> pydict \<Rightarrow> pydict" where
  \<comment> \<open>\<open>d[k] = v\<close>\<close>
  "setitem k v d = AList.update k v d"

definition setdefault :: "string \<Rightarrow> pyval \<Rightarrow> pydict \<Rightarrow> pydict" where
  \<comment> \<open>\<open>d.setdefault(k, v)\<close>: a present key keeps its value, whatever it is\<close>
  "setdefault k v d = (case map_of d k of None \<Rightarrow> d @ [(k, v)] | Some u \<Rightarrow> d)"

fun starts_with :: "string \<Rightarrow> string \<Rightarrow> bool" where
  "starts_with s [] = True"
| "starts_with [] (k # ks) = False"
| "starts_with (x # xs) (k # ks) = (x = k \<and> starts_with xs ks)"

fun str_in :: "string \<Rightarrow> string \<Rightarrow> bool" where
  \<comment> \<open>\<open>k in s\<close> for strings: \<open>k\<close> occurs in \<open>s\<close> as a contiguous run\<close>
  "str_in k [] = (k = [])"
| "str_in k (x # xs) = (starts_with (x # xs) k \<or> str_in k xs)"

definition any_in :: "string list \<Rightarrow> string \<Rightarrow> bool" where
  \<comment> \<open>\<open>any(k in s for k in ks)\<close>\<close>
  "any_in ks s = list_ex (\<lambda>k. str_in k s) ks"

fun str_find :: "string \<Rightarrow> char \<Rightarrow> int" where
  \<comment> \<open>\<open>s.find(c)\<close>: the lowest index of \<open>c\<close>, or -1\<close>
  "str_find [] c = - 1"
| "str_find (x # xs) c =
     (if x = c then 0
      else (let r = str_find xs c in if r = - 1 then - 1 else r + 1))"

fun str_rfind :: "string \<Rightarrow> char \<Rightarrow> int" where
  \<comment> \<open>\<open>s.rfind(c)\<close>: the highest index of \<open>c\<close>, or -1\<close>
  "str_rfind [] c = - 1"
| "str_rfind (x # xs) c =
     (let r = str_rfind xs c
      in if r \<noteq> - 1 then r + 1 else if x = c then 0 else - 1)"

definition str_slice :: "string \<Rightarrow> int \<Rightarrow> int \<Rightarrow> string" where
  \<comment> \<open>\<open>s[a:b]\<close>; the code only slices with \<open>0 \<le> a\<close> and \<open>0 \<le> b\<close>\<close>
  "str_slice s a b = take (nat (b - a)) (drop (nat a) s)"

fun split_on :: "char \<Rightarrow> string \<Rightarrow> string list" where
  \<comment> \<open>\<open>s.split(c)\<close>: always at least one segment\<close>
  "split_on c [] = [[]]"
| "split_on c (x # xs) =
     (if x = c then [] # split_on c xs
      else (case split_on c xs of
              [] \<Rightarrow> [[x]]
            | seg # segs \<Rightarrow> (x # seg) # segs))"

section \<open>Image analysis: the text heuristic\<close>

definition deepfake_keywords :: "string list" where
  "deepfake_keywords =
     [''deepfake'', ''ai-generated'', ''artificial'', ''synthetic'', ''fake'', ''manipulated'']"

definition likely_words :: "string list" where
  "likely_words = [''likely'', ''probably'', ''appears'']"

definition definitely_words :: "string list" where
  "definitely_words = [''definitely'', ''clearly'', ''obvious'']"

definition possibly_words :: "string list" where
  "possibly_words = [''possibly'', ''might'', ''could'']"

definition image_indicator_words :: "string list" where
  "image_indicator_words =
     [''inconsistent'', ''unnatural'', ''artifact'', ''blurr'', ''warp'', ''irregular'']"

definition text_confidence :: "pylib \<Rightarrow> string \<Rightarrow> int" where
  \<comment> \<open>the local variable \<open>confidence\<close> of \<open>ImageAnalyzer._parse_text_response\<close>:
      three assignments in sequence, each overwriting the value before it\<close>
  "text_confidence L text =
     (let confidence = 0;
          confidence = (if any_in likely_words (lower L text) then 65 else confidence);
          confidence = (if any_in definitely_words (lower L text) then 85 else confidence);
          confidence = (if any_in possibly_words (lower L text) then 40 else confidence)
      in confidence)"

definition find_indicators :: "pylib \<Rightarrow> string list \<Rightarrow> string \<Rightarrow> string list" where
  \<comment> \<open>the loop over \<open>text.split('.')\<close> that collects the stripped matching sentences\<close>
  "find_indicators L ks text =
     map (strip L)
       (filter (\<lambda>sentence. any_in ks (lower L sentence)) (split_on CHR ''.'' text))"

definition image_parse_text_response :: "pylib \<Rightarrow> string \<Rightarrow> pydict" where
  \<comment> \<open>\<open>ImageAnalyzer._parse_text_response\<close>\<close>
  "image_parse_text_response L text =
     (let is_deepfake = any_in deepfake_keywords (lower L text);
          confidence = text_confidence L text;
          indicators = find_indicators L image_indicator_words text
      in [(''is_deepfake'', PBool is_deepfake),
          (''confidence_score'', PInt (if is_deepfake then confidence else 100 - confidence)),
          (''analysis'', PStr text),
          (''indicators'', PList (map PStr (take 5 indicators))),
          (''suspicious_areas'', PList [])])"

section \<open>Image analysis: from the model's reply to the result\<close>

definition image_defaults :: "string \<Rightarrow> pydict \<Rightarrow> pydict" where
  \<comment> \<open>the five \<open>setdefault\<close> calls of \<open>ImageAnalyzer.analyze\<close>, in their order\<close>
  "image_defaults result_text result =
     (let result = setdefault ''is_deepfake'' (PBool False) result;
          result = setdefault ''confidence_score'' (PInt 0) result;
          result = setdefault ''analysis'' (PStr result_text) result;
          result = setdefault ''indicators'' (PList []) result;
          result = setdefault ''suspicious_areas'' (PList []) result
      in result)"

definition image_analyze_response :: "pylib \<Rightarrow> string \<Rightarrow> string + pydict" where
  \<comment> \<open>\<open>ImageAnalyzer.analyze\<close> from the reply text on; \<open>Inl\<close> is an exception that
      reaches the outer handler, with its message\<close>
  "image_analyze_response L result_text =
     (let json_start = str_find result_text CHR ''{'';
          json_end = str_rfind result_text CHR ''}'' + 1;
          extracted =
            (if json_start \<noteq> - 1 \<and> json_end > json_start
             then (case json_loads L (str_slice result_text json_start json_end) of
                     Parsed obj \<Rightarrow> Inr obj
                   | JSONDecodeError \<Rightarrow> Inr (image_parse_text_response L result_text)
                   | OtherError msg \<Rightarrow> Inl msg)
             else Inr (image_parse_text_response L result_text))
      in case extracted of
           Inl msg \<Rightarrow> Inl msg
         | Inr result \<Rightarrow> Inr (image_defaults result_text result))"

definition image_error_result :: "string \<Rightarrow> pydict" where
  \<comment> \<open>the dictionary the outer handler of \<open>ImageAnalyzer.analyze\<close> returns\<close>
  "image_error_result msg =
     [(''is_deepfake'', PBool False),
      (''confidence_score'', PInt 0),
      (''analysis'', PStr (''Error during analysis: '' @ msg)),
      (''indicators'', PList []),
      (''suspicious_areas'', PList []),
      (''error'', PStr msg)]"

section \<open>The environment and the state of the world\<close>

text \<open>
  Everything outside the repository is an oracle of the environment: the file system
  queries, the image and video libraries, the Python library and the remote model. The
  remote model's reply may differ from call to call, so it is indexed by the number of calls
  made before it. A frame of a video is identified with the temporary file it is written to.
  Reading a frame and writing it to its temporary file are taken not to raise.
\<close>

record 'a video =
  opened :: bool  \<comment> \<open>\<open>cap.isOpened()\<close>\<close>
  cap_frame_count :: int  \<comment> \<open>\<open>int(cap.get(cv2.CAP_PROP_FRAME_COUNT))\<close>\<close>
  stream :: "'a list"  \<comment> \<open>the frames \<open>cap.read()\<close> delivers before \<open>ret\<close> is false\<close>

record env =
  lib :: pylib  \<comment> \<open>the Python library\<close>
  path_exists :: "string \<Rightarrow> bool"  \<comment> \<open>\<open>os.path.exists\<close>\<close>
  path_suffix :: "string \<Rightarrow> string"  \<comment> \<open>\<open>Path(p).suffix\<close>\<close>
  pil_verify :: "string \<Rightarrow> bool"  \<comment> \<open>\<open>Image.open(p).verify()\<close> returns\<close>
  image_open :: "string \<Rightarrow> string option"  \<comment> \<open>\<open>Image.open(p)\<close>: the message if it raises\<close>
  capture :: "string \<Rightarrow> string + string video"  \<comment> \<open>\<open>cv2.VideoCapture(p)\<close> and its frame count\<close>
  unlink :: "string \<Rightarrow> string option"  \<comment> \<open>\<open>os.unlink(p)\<close>: the message if it raises\<close>
  generate :: "nat \<Rightarrow> string + string"  \<comment> \<open>\<open>generate_content(...).text\<close> of the n-th call\<close>

record world =
  calls :: nat  \<comment> \<open>remote model calls made so far\<close>
  tmp_files :: "string list"  \<comment> \<open>temporary frame files on disk\<close>

section \<open>The frame sampler\<close>

fun sample_loop :: "int \<Rightarrow> int \<Rightarrow> int \<Rightarrow> int \<Rightarrow> 'a list \<Rightarrow> 'a list \<Rightarrow> 'a list" where
  \<comment> \<open>the \<open>while\<close> loop of \<open>_extract_frames\<close> on an opened capture; the last argument is what
      is left of the stream\<close>
  "sample_loop max_frames interval frame_count extracted frames [] = frames"
| "sample_loop max_frames interval frame_count extracted frames (frame # rest) =
     (if extracted < max_frames
      then (if frame_count mod interval = 0
            then sample_loop max_frames interval (frame_count + 1) (extracted + 1)
                   (frames @ [frame]) rest
            else sample_loop max_frames interval (frame_count + 1) extracted frames rest)
      else frames)"

definition extract_frames :: "string + 'a video \<Rightarrow> int \<Rightarrow> 'a list" where
  \<comment> \<open>\<open>VideoAnalyzer._extract_frames\<close>; every exception is caught and the frames collected
      so far are returned\<close>
  "extract_frames cap max_frames =
     (case cap of
        Inl msg \<Rightarrow> []
      | Inr v \<Rightarrow>
          (let total_frames = cap_frame_count v
           in if total_frames = 0 then []
              else if max_frames = 0 then []  \<comment> \<open>\<open>ZeroDivisionError\<close>, caught\<close>
              else (let interval = max 1 (total_frames div max_frames)
                    in if opened v then sample_loop max_frames interval 0 0 [] (stream v)
                       else [])))"

section \<open>Numbers\<close>

text \<open>
  The video heuristics mix integers and floats. An operation on two integers is exact; an
  operation with a float operand is rounded; comparisons are exact. The integers that meet
  a float are 1, 100 and a number of frames, which are floats as they are.
\<close>

datatype pynum = NInt int | NFloat rat

fun num_val :: "pynum \<Rightarrow> rat" where
  "num_val (NInt i) = of_int i"
| "num_val (NFloat x) = x"

fun num_mul :: "pylib \<Rightarrow> pynum \<Rightarrow> pynum \<Rightarrow> pynum" where
  \<comment> \<open>\<open>a * b\<close>\<close>
  "num_mul L (NInt i) (NInt j) = NInt (i * j)"
| "num_mul L a b = NFloat (fround L (num_val a * num_val b))"

fun num_sub :: "pylib \<Rightarrow> pynum \<Rightarrow> pynum \<Rightarrow> pynum" where
  \<comment> \<open>\<open>a - b\<close>\<close>
  "num_sub L (NInt i) (NInt j) = NInt (i - j)"
| "num_sub L a b = NFloat (fround L (num_val a - num_val b))"

definition true_div :: "pylib \<Rightarrow> nat \<Rightarrow> nat \<Rightarrow> pynum" where
  \<comment> \<open>\<open>a / b\<close> for two integers, \<open>b\<close> not zero: always a float\<close>
  "true_div L a b = NFloat (fround L (of_nat a / of_nat b))"

definition float_0_3 :: "pylib \<Rightarrow> pynum" where
  \<comment> \<open>the literal \<open>0.3\<close>\<close>
  "float_0_3 L = NFloat (fround L (3 / 10))"

definition num_gt :: "pynum \<Rightarrow> pynum \<Rightarrow> bool" where
  \<comment> \<open>\<open>a > b\<close>\<close>
  "num_gt a b = (num_val a > num_val b)"

fun num_int :: "pynum \<Rightarrow> int" where
  \<comment> \<open>\<open>int(a)\<close> truncates towards zero\<close>
  "num_int (NInt i) = i"
| "num_int (NFloat x) = (if 0 \<le> x then \<lfloor>x\<rfloor> else \<lceil>x\<rceil>)"

definition min_95 :: "pynum \<Rightarrow> pynum" where
  \<comment> \<open>\<open>min(95, a)\<close>: the integer 95 unless \<open>a\<close> is smaller\<close>
  "min_95 a = (if num_val a < 95 then a else NInt 95)"

fun num_pyval :: "pynum \<Rightarrow> pyval" where
  "num_pyval (NInt i) = PInt i"
| "num_pyval (NFloat x) = PFloat x"

section \<open>Video analysis\<close>

definition suspicious_words :: "string list" where
  "suspicious_words = [''suspicious'', ''fake'', ''manipulated'', ''artificial'', ''unnatural'']"

definition video_keywords :: "string list" where
  "video_keywords = [''deepfake'', ''fake'', ''manipulated'', ''ai-generated'']"

definition video_indicator_words :: "string list" where
  "video_indicator_words =
     [''inconsistent'', ''unnatural'', ''artifact'', ''manipulation'', ''suspicious'']"

record loop_state =
  ls_world :: world
  ls_frame_results :: "pydict list"
  ls_suspicious_count :: nat

definition frame_entry :: "nat \<Rightarrow> bool \<Rightarrow> string \<Rightarrow> pydict" where
  "frame_entry idx is_suspicious note =
     [(''frame_number'', PInt (int idx + 1)),
      (''is_suspicious'', PBool is_suspicious),
      (''note'', PStr note)]"

definition frame_error_entry :: "nat \<Rightarrow> string \<Rightarrow> pydict" where
  "frame_error_entry idx msg = frame_entry idx False (''Error analyzing frame: '' @ msg)"

definition analyze_frame :: "env \<Rightarrow> nat \<Rightarrow> string \<Rightarrow> loop_state \<Rightarrow> loop_state" where
  \<comment> \<open>the body of the per-frame loop of \<open>VideoAnalyzer.analyze\<close>: the \<open>try\<close> block ends
      with \<open>os.unlink\<close>, the handler only appends an error entry\<close>
  "analyze_frame e idx frame_path s =
     (case image_open e frame_path of
        Some msg \<Rightarrow>
          s\<lparr>ls_frame_results := ls_frame_results s @ [frame_error_entry idx msg]\<rparr>
      | None \<Rightarrow>
          (let w = ls_world s;
               reply = generate e (calls w);
               w = w\<lparr>calls := calls w + 1\<rparr>
           in case reply of
                Inl msg \<Rightarrow>
                  s\<lparr>ls_world := w,
                    ls_frame_results := ls_frame_results s @ [frame_error_entry idx msg]\<rparr>
              | Inr analysis_text \<Rightarrow>
                  (let is_suspicious =
                         any_in suspicious_words (lower (lib e) analysis_text);
                       cnt = (if is_suspicious then ls_suspicious_count s + 1
                              else ls_suspicious_count s);
                       results = ls_frame_results s
                                 @ [frame_entry idx is_suspicious
                                      (str_prefix (lib e) 200 analysis_text)]
                   in case unlink e frame_path of
                        None \<Rightarrow>
                          \<lparr>ls_world = w\<lparr>tmp_files := removeAll frame_path (tmp_files w)\<rparr>,
                           ls_frame_results = results,
                           ls_suspicious_count = cnt\<rparr>
                      | Some msg \<Rightarrow>
                          \<lparr>ls_world = w,
                           ls_frame_results = results @ [frame_error_entry idx msg],
                           ls_suspicious_count = cnt\<rparr>)))"

fun frame_loop :: "env \<Rightarrow> nat \<Rightarrow> string list \<Rightarrow> loop_state \<Rightarrow> loop_state" where
  \<comment> \<open>\<open>for idx, frame_path in enumerate(frames)\<close>\<close>
  "frame_loop e idx [] s = s"
| "frame_loop e idx (frame_path # rest) s =
     frame_loop e (idx + 1) rest (analyze_frame e idx frame_path s)"

definition video_parse_text_response :: "pylib \<Rightarrow> string \<Rightarrow> nat \<Rightarrow> nat \<Rightarrow> pydict" where
  \<comment> \<open>\<open>VideoAnalyzer._parse_text_response\<close>; its callers pass a counter and a length\<close>
  "video_parse_text_response L text suspicious_count total_frames =
     (let ratio = (if total_frames > 0 then true_div L suspicious_count total_frames
                   else NInt 0);
          is_deepfake = (num_gt ratio (float_0_3 L) \<or> any_in video_keywords (lower L text));
          confidence =
            (if is_deepfake then min 95 (num_int (num_mul L ratio (NInt 100)))
             else max 5 (num_int (num_mul L (num_sub L (NInt 1) ratio) (NInt 100))));
          indicators = find_indicators L video_indicator_words text
      in [(''is_deepfake'', PBool is_deepfake),
          (''confidence_score'', PInt confidence),
          (''analysis'', PStr text),
          (''indicators'', PList (map PStr (take 5 indicators)))])"

definition video_defaults :: "pylib \<Rightarrow> string \<Rightarrow> nat \<Rightarrow> nat \<Rightarrow> pydict \<Rightarrow> pydict" where
  \<comment> \<open>the four \<open>setdefault\<close> calls of \<open>VideoAnalyzer.analyze\<close>; \<open>n\<close> is \<open>len(frames)\<close>,
      which is positive here\<close>
  "video_defaults L overall_text cnt n result =
     (let result = setdefault ''is_deepfake''
                     (PBool (num_gt (NInt (int cnt))
                               (num_mul L (NInt (int n)) (float_0_3 L)))) result;
          result = setdefault ''confidence_score''
                     (num_pyval (min_95 (num_mul L (true_div L cnt n) (NInt 100)))) result;
          result = setdefault ''analysis'' (PStr overall_text) result;
          result = setdefault ''indicators'' (PList []) result
      in result)"

definition video_analyze_response ::
  "pylib \<Rightarrow> string \<Rightarrow> nat \<Rightarrow> pydict list \<Rightarrow> nat \<Rightarrow> string + pydict" where
  \<comment> \<open>\<open>VideoAnalyzer.analyze\<close> from the overall reply text on\<close>
  "video_analyze_response L overall_text cnt details n =
     (let json_start = str_find overall_text CHR ''{'';
          json_end = str_rfind overall_text CHR ''}'' + 1;
          extracted =
            (if json_start \<noteq> - 1 \<and> json_end > json_start
             then (case json_loads L (str_slice overall_text json_start json_end) of
                     Parsed obj \<Rightarrow> Inr obj
                   | JSONDecodeError \<Rightarrow> Inr (video_parse_text_response L overall_text cnt n)
                   | OtherError msg \<Rightarrow> Inl msg)
             else Inr (video_parse_text_response L overall_text cnt n))
      in case extracted of
           Inl msg \<Rightarrow> Inl msg
         | Inr result \<Rightarrow>
             (let result = setitem ''frame_analysis''
                             (PDict [(''total_frames'', PInt (int n)),
                                     (''suspicious_frames'', PInt (int cnt)),
                                     (''frame_details'', PList (map PDict details))]) result
              in Inr (video_defaults L overall_text cnt n result)))"

definition no_frames_result :: pydict where
  \<comment> \<open>what \<open>VideoAnalyzer.analyze\<close> returns when the sampler gave no frame\<close>
  "no_frames_result =
     [(''is_deepfake'', PBool False),
      (''confidence_score'', PInt 0),
      (''analysis'', PStr ''Could not extract frames from video''),
      (''indicators'', PList []),
      (''frame_analysis'', PDict [(''total_frames'', PInt 0), (''suspicious_frames'', PInt 0)])]"

definition video_error_result :: "string \<Rightarrow> pydict" where
  \<comment> \<open>the dictionary the outer handler of \<open>VideoAnalyzer.analyze\<close> returns\<close>
  "video_error_result msg =
     [(''is_deepfake'', PBool False),
      (''confidence_score'', PInt 0),
      (''analysis'', PStr (''Error during video analysis: '' @ msg)),
      (''indicators'', PList []),
      (''frame_analysis'', PDict [(''total_frames'', PInt 0), (''suspicious_frames'', PInt 0)]),
      (''error'', PStr msg)]"

definition video_analyze :: "env \<Rightarrow> world \<Rightarrow> string \<Rightarrow> int \<Rightarrow> pydict \<times> world" where
  \<comment> \<open>\<open>VideoAnalyzer.analyze\<close>\<close>
  "video_analyze e w video_path max_frames =
     (let frames = extract_frames (capture e video_path) max_frames;
          w = w\<lparr>tmp_files := tmp_files w @ frames\<rparr>
      in if frames = [] then (no_frames_result, w)
         else (let s = frame_loop e 0 frames
                         \<lparr>ls_world = w, ls_frame_results = [], ls_suspicious_count = 0\<rparr>;
                   w = ls_world s;
                   reply = generate e (calls w);
                   w = w\<lparr>calls := calls w + 1\<rparr>
               in case reply of
                    Inl msg \<Rightarrow> (video_error_result msg, w)
                  | Inr overall_text \<Rightarrow>
                      (case video_analyze_response (lib e) overall_text
                              (ls_suspicious_count s) (ls_frame_results s) (length frames) of
                         Inl msg \<Rightarrow> (video_error_result msg, w)
                       | Inr result \<Rightarrow> (result, w))))"

definition image_analyze :: "env \<Rightarrow> world \<Rightarrow> string \<Rightarrow> pydict \<times> world" where
  \<comment> \<open>\<open>ImageAnalyzer.analyze\<close>\<close>
  "image_analyze e w image_path =
     (case image_open e image_path of
        Some msg \<Rightarrow> (image_error_result msg, w)
      | None \<Rightarrow>
          (let reply = generate e (calls w);
               w = w\<lparr>calls := calls w + 1\<rparr>
           in case reply of
                Inl msg \<Rightarrow> (image_error_result msg, w)
              | Inr result_text \<Rightarrow>
                  (case image_analyze_response (lib e) result_text of
                     Inl msg \<Rightarrow> (image_error_result msg, w)
                   | Inr result \<Rightarrow> (result, w))))"

section \<open>The detector\<close>

definition image_extensions :: "string list" where
  "image_extensions = [''.jpg'', ''.jpeg'', ''.png'', ''.webp'', ''.bmp'', ''.gif'']"

definition video_extensions :: "string list" where
  "video_extensions = [''.mp4'', ''.avi'', ''.mov'', ''.mkv'', ''.flv'', ''.wmv'']"

definition is_image :: "env \<Rightarrow> string \<Rightarrow> bool" where
  "is_image e file_path = (lower (lib e) (path_suffix e file_path) \<in> set image_extensions)"

definition is_video :: "env \<Rightarrow> string \<Rightarrow> bool" where
  "is_video e file_path = (lower (lib e) (path_suffix e file_path) \<in> set video_extensions)"

definition validate_image :: "env \<Rightarrow> string \<Rightarrow> bool" where
  "validate_image e file_path =
     (if \<not> path_exists e file_path then False
      else if \<not> is_image e file_path then False
      else pil_verify e file_path)"

definition validate_video :: "env \<Rightarrow> string \<Rightarrow> bool" where
  "validate_video e file_path =
     (if \<not> path_exists e file_path then False
      else if \<not> is_video e file_path then False
      else (case capture e file_path of
              Inl msg \<Rightarrow> False
            | Inr v \<Rightarrow> if \<not> opened v then False else stream v \<noteq> []))"

definition invalid_image_result :: pydict where
  "invalid_image_result =
     [(''is_deepfake'', PBool False),
      (''confidence_score'', PInt 0),
      (''analysis'', PStr ''Invalid image file''),
      (''indicators'', PList []),
      (''error'', PStr ''File validation failed'')]"

definition invalid_video_result :: pydict where
  "invalid_video_result =
     [(''is_deepfake'', PBool False),
      (''confidence_score'', PInt 0),
      (''analysis'', PStr ''Invalid video file''),
      (''indicators'', PList []),
      (''frame_analysis'', PDict [(''total_frames'', PInt 0), (''suspicious_frames'', PInt 0)]),
      (''error'', PStr ''File validation failed'')]"

definition analyze_image :: "env \<Rightarrow> world \<Rightarrow> string \<Rightarrow> pydict \<times> world" where
  \<comment> \<open>\<open>DeepfakeDetector.analyze_image\<close>\<close>
  "analyze_image e w image_path =
     (if \<not> validate_image e image_path then (invalid_image_result, w)
      else (case image_analyze e w image_path of
              (results, w') \<Rightarrow>
                (setitem ''file_path'' (PStr image_path)
                   (setitem ''media_type'' (PStr ''image'') results), w')))"

definition analyze_video :: "env \<Rightarrow> world \<Rightarrow> string \<Rightarrow> int \<Rightarrow> pydict \<times> world" where
  \<comment> \<open>\<open>DeepfakeDetector.analyze_video\<close>\<close>
  "analyze_video e w video_path max_frames =
     (if \<not> validate_video e video_path then (invalid_video_result, w)
      else (case video_analyze e w video_path max_frames of
              (results, w') \<Rightarrow>
                (setitem ''file_path'' (PStr video_path)
                   (setitem ''media_type'' (PStr ''video'') results), w')))"

definition batch_step :: "env \<Rightarrow> string \<Rightarrow> world \<Rightarrow> string \<Rightarrow> pydict \<times> world" where
  \<comment> \<open>the body of the loop of \<open>batch_analyze\<close>; \<open>analyze_video\<close> runs with its default
      \<open>max_frames=10\<close>\<close>
  "batch_step e media_type w file_path =
     (if media_type = ''auto''
      then (if is_image e file_path then analyze_image e w file_path
            else if is_video e file_path then analyze_video e w file_path 10
            else ([(''error'', PStr ''Unknown file type''),
                   (''file_path'', PStr file_path)], w))
      else if media_type = ''image'' then analyze_image e w file_path
      else analyze_video e w file_path 10)"

fun batch_loop :: "env \<Rightarrow> string \<Rightarrow> string list \<Rightarrow> pydict list \<times> world \<Rightarrow> pydict list \<times> world" where
  "batch_loop e media_type [] (results, w) = (results, w)"
| "batch_loop e media_type (file_path # rest) (results, w) =
     (case batch_step e media_type w file_path of
        (result, w') \<Rightarrow> batch_loop e media_type rest (results @ [result], w'))"

definition batch_analyze :: "env \<Rightarrow> world \<Rightarrow> string list \<Rightarrow> string \<Rightarrow> pydict list \<times> world" where
  \<comment> \<open>\<open>DeepfakeDetector.batch_analyze\<close>\<close>
  "batch_analyze e w file_paths media_type = batch_loop e media_type file_paths ([], w)"

section \<open>Properties of results\<close>

definition in_0_100 :: "pyval \<Rightarrow> bool" where
  "in_0_100 v =
     (case v of
        PInt i \<Rightarrow> 0 \<le> i \<and> i \<le> 100
      | PFloat x \<Rightarrow> 0 \<le> x \<and> x \<le> 100
      | _ \<Rightarrow> False)"

definition safe_defaults :: "pydict \<Rightarrow> bool" where
  \<comment> \<open>not manipulated, confidence 0, a non-empty narrative, an empty indicator list\<close>
  "safe_defaults r =
     (map_of r ''is_deepfake'' = Some (PBool False)
      \<and> map_of r ''confidence_score'' = Some (PInt 0)
      \<and> (case map_of r ''analysis'' of Some (PStr a) \<Rightarrow> a \<noteq> [] | _ \<Rightarrow> False)
      \<and> map_of r ''indicators'' = Some (PList []))"

fun in_order :: "('w \<Rightarrow> 'a \<Rightarrow> 'b \<times> 'w) \<Rightarrow> 'w \<Rightarrow> 'a list \<Rightarrow> 'b list \<times> 'w" where
  \<comment> \<open>what C10 asks of a batch, in its words: one result per element, in the order of the
      list, each computed in the world its predecessor left\<close>
  "in_order f w [] = ([], w)"
| "in_order f w (x # xs) =
     (case f w x of
        (y, w') \<Rightarrow> (case in_order f w' xs of (ys, w'') \<Rightarrow> (y # ys, w'')))"

definition reply_object :: "pylib \<Rightarrow> string \<Rightarrow> pydict option" where
  \<comment> \<open>the object that the JSON-extraction path takes from a reply: the parse of the span
      from the first opening brace to the last closing brace, when there is such a span and
      it parses\<close>
  "reply_object L reply_text =
     (let json_start = str_find reply_text CHR ''{'';
          json_end = str_rfind reply_text CHR ''}'' + 1
      in if json_start \<noteq> - 1 \<and> json_end > json_start
         then (case json_loads L (str_slice reply_text json_start json_end) of
                 Parsed obj \<Rightarrow> Some obj
               | JSONDecodeError \<Rightarrow> None
               | OtherError msg \<Rightarrow> None)
         else None)"

definition image_reply :: "env \<Rightarrow> world \<Rightarrow> string \<Rightarrow> string option" where
  \<comment> \<open>the reply of the remote model to the request \<open>analyze_image\<close> makes, when the file is
      valid, opens and the call returns\<close>
  "image_reply e w image_path =
     (if \<not> validate_image e image_path then None
      else (case image_open e image_path of
              Some msg \<Rightarrow> None
            | None \<Rightarrow>
                (case generate e (calls w) of
                   Inl msg \<Rightarrow> None
                 | Inr result_text \<Rightarrow> Some result_text)))"

definition video_reply :: "env \<Rightarrow> world \<Rightarrow> string \<Rightarrow> int \<Rightarrow> string option" where
  \<comment> \<open>the reply of the remote model to the aggregate request \<open>analyze_video\<close> makes after
      the frame loop, when the file is valid, the sampler gave a frame and the call returns\<close>
  "video_reply e w video_path max_frames =
     (if \<not> validate_video e video_path then None
      else (let frames = extract_frames (capture e video_path) max_frames
            in if frames = [] then None
               else (let s = frame_loop e 0 frames
                               \<lparr>ls_world = w\<lparr>tmp_files := tmp_files w @ frames\<rparr>,
                                ls_frame_results = [], ls_suspicious_count = 0\<rparr>
                     in case generate e (calls (ls_world s)) of
                          Inl msg \<Rightarrow> None
                        | Inr overall_text \<Rightarrow> Some overall_text)))"

definition reply_field :: "pylib \<Rightarrow> string option \<Rightarrow> string \<Rightarrow> pyval option" where
  \<comment> \<open>the value the object of the reply holds under a key, when there is a reply, it has
      an object and the object has the key\<close>
  "reply_field L reply k =
     (case reply of
        None \<Rightarrow> None
      | Some reply_text \<Rightarrow>
          (case reply_object L reply_text of
             None \<Rightarrow> None
           | Some obj \<Rightarrow> map_of obj k))"

definition score_ok :: "pylib \<Rightarrow> string option \<Rightarrow> pydict \<Rightarrow> bool" where
  \<comment> \<open>C2 as amended, for one result and the reply it was made from: a score the reply's
      object supplies is returned unchanged; any other score lies in the range 0 to 100\<close>
  "score_ok L reply r =
     (case reply_field L reply ''confidence_score'' of
        Some v \<Rightarrow> map_of r ''confidence_score'' = Some v
      | None \<Rightarrow>
          (case map_of r ''confidence_score'' of
             Some v \<Rightarrow> in_0_100 v
           | None \<Rightarrow> False))"

definition error_ok :: "pylib \<Rightarrow> string option \<Rightarrow> pydict \<Rightarrow> bool" where
  \<comment> \<open>C7 as amended, for one result and the reply it was made from: an \<open>error\<close> the reply's
      object supplies is returned unchanged; otherwise the result has no \<open>error\<close> or it
      carries the safe defaults\<close>
  "error_ok L reply r =
     (case reply_field L reply ''error'' of
        Some v \<Rightarrow> map_of r ''error'' = Some v
      | None \<Rightarrow> map_of r ''error'' = None \<or> safe_defaults r)"

definition unknown_type_entry :: "string \<Rightarrow> pydict" where
  \<comment> \<open>the entry \<open>batch_analyze\<close> makes in \<open>auto\<close> mode for a path of unknown type\<close>
  "unknown_type_entry file_path =
     [(''error'', PStr ''Unknown file type''), (''file_path'', PStr file_path)]"

section \<open>An example environment\<close>

text \<open>
  The examples use ASCII text only, where a character is one byte, \<open>str.lower\<close> folds the
  letters A to Z and \<open>str.strip\<close> removes the ASCII white space. Their float arithmetic has
  the operands 0 and 1 and the comparison with 0.3 only, so rounding is left out.
\<close>

definition ascii_lower_char :: "char \<Rightarrow> char" where
  "ascii_lower_char c =
     (case map_of (zip ''ABCDEFGHIJKLMNOPQRSTUVWXYZ'' ''abcdefghijklmnopqrstuvwxyz'') c of
        Some d \<Rightarrow> d
      | None \<Rightarrow> c)"

definition ascii_lower :: "string \<Rightarrow> string" where
  "ascii_lower s = map ascii_lower_char s"

definition ascii_space :: "char \<Rightarrow> bool" where
  "ascii_space c = (c \<in> set [CHR '' '', CHR 0x09, CHR 0x0A, CHR 0x0B, CHR 0x0C, CHR 0x0D,
                               CHR 0x1C, CHR 0x1D, CHR 0x1E, CHR 0x1F])"

definition ascii_strip :: "string \<Rightarrow> string" where
  "ascii_strip s = rev (dropWhile ascii_space (rev (dropWhile ascii_space s)))"

definition demo_loads :: "string \<Rightarrow> loads_result" where
  \<comment> \<open>\<open>json.loads\<close> on the two objects the examples use\<close>
  \<open>demo_loads s =
     (if s = ''{"is_deepfake": true}'' then Parsed [(''is_deepfake'', PBool True)]
      else if s = ''{"confidence_score": 150}'' then Parsed [(''confidence_score'', PInt 150)]
      else JSONDecodeError)\<close>

definition demo_lib :: pylib where
  "demo_lib =
     \<lparr>lower = ascii_lower,
      strip = ascii_strip,
      str_prefix = take,
      fround = (\<lambda>x. x),
      json_loads = demo_loads\<rparr>"

definition demo_capture :: "string \<Rightarrow> string + string video" where
  \<comment> \<open>\<open>clip.mp4\<close> is a video of one frame; no other path can be opened\<close>
  "demo_capture p =
     (if p = ''clip.mp4''
      then Inr \<lparr>opened = True, cap_frame_count = 1, stream = [''frame0.jpg'']\<rparr>
      else Inr \<lparr>opened = False, cap_frame_count = 0, stream = []\<rparr>)"

definition demo_env :: "(nat \<Rightarrow> string + string) \<Rightarrow> env" where
  \<comment> \<open>an environment where every path exists and names end in a three-letter extension;
      the remote model is the parameter\<close>
  "demo_env g =
     \<lparr>lib = demo_lib,
      path_exists = (\<lambda>p. True),
      path_suffix = (\<lambda>p. drop (length p - 4) p),
      pil_verify = (\<lambda>p. True),
      image_open = (\<lambda>p. None),
      capture = demo_capture,
      unlink = (\<lambda>p. None),
      generate = g\<rparr>"

definition world0 :: world where
  "world0 = \<lparr>calls = 0, tmp_files = []\<rparr>"

section \<open>Facts about the string functions\<close>

lemma starts_with_iff: "starts_with s k \<longleftrightarrow> (\<exists>q. s = k @ q)"
  by (induction s k rule: starts_with.induct) auto

lemma str_in_iff: "str_in k s \<longleftrightarrow> (\<exists>p q. s = p @ k @ q)"
proof (induction s)
  case Nil
  then show ?case by auto
next
  case (Cons x xs)
  show ?case
  proof
    assume "str_in k (x # xs)"
    then consider "starts_with (x # xs) k" | "str_in k xs" by auto
    then show "\<exists>p q. x # xs = p @ k @ q"
    proof cases
      case 1
      then obtain q where "x # xs = k @ q" by (auto simp: starts_with_iff)
      then have "x # xs = [] @ k @ q" by simp
      then show ?thesis by blast
    next
      case 2
      then obtain p q where "xs = p @ k @ q" using Cons.IH by auto
      then have "x # xs = (x # p) @ k @ q" by simp
      then show ?thesis by blast
    qed
  next
    assume "\<exists>p q. x # xs = p @ k @ q"
    then obtain p q where pq: "x # xs = p @ k @ q" by auto
    show "str_in k (x # xs)"
    proof (cases p)
      case Nil
      with pq have "starts_with (x # xs) k" by (auto simp: starts_with_iff)
      then show ?thesis by simp
    next
      case (Cons y ys)
      with pq have "xs = ys @ k @ q" by simp
      then have "str_in k xs" using Cons.IH by blast
      then show ?thesis by simp
    qed
  qed
qed

lemma any_in_iff: "any_in ks s \<longleftrightarrow> (\<exists>k \<in> set ks. \<exists>p q. s = p @ k @ q)"
  by (simp add: any_in_def list_ex_iff str_in_iff)

lemmas eval_defs =
  any_in_def demo_lib_def ascii_lower_def ascii_lower_char_def likely_words_def
  definitely_words_def possibly_words_def deepfake_keywords_def video_keywords_def

section \<open>The text heuristics\<close>

text \<open>
  C3, as the code has it. In image mode \<open>is_deepfake\<close> is true exactly when the lowercased
  text contains one of the six keywords. The video aggregate mode has its own rule: true
  exactly when the suspicious-frame ratio (0 when there is no frame) exceeds 0.3 or the
  lowercased text contains one of \<open>deepfake\<close>, \<open>fake\<close>, \<open>manipulated\<close>, \<open>ai-generated\<close>.
  Lowercasing is the library's, whatever it does to a character.
\<close>

theorem heuristic_is_deepfake:
  "map_of (image_parse_text_response L text) ''is_deepfake'' =
     Some (PBool (any_in deepfake_keywords (lower L text)))
   \<and> map_of (video_parse_text_response L text cnt n) ''is_deepfake'' =
     Some (PBool ((if 0 < n then fround L (of_nat cnt / of_nat n) else 0) > fround L (3 / 10)
                  \<or> any_in video_keywords (lower L text)))"
  by (simp add: image_parse_text_response_def video_parse_text_response_def Let_def
      num_gt_def true_div_def float_0_3_def)

text \<open>
  C3 as stated fails in video aggregate mode: the text \<open>synthetic\<close> contains a keyword of
  the six-word set, yet with no suspicious frame among ten the video heuristic answers false.
\<close>

theorem video_heuristic_ignores_synthetic:
  "any_in deepfake_keywords (lower demo_lib ''synthetic'')
   \<and> map_of (video_parse_text_response demo_lib ''synthetic'' 0 10) ''is_deepfake''
       = Some (PBool False)"
  by (simp add: eval_defs video_parse_text_response_def num_gt_def true_div_def float_0_3_def)

text \<open>
  C4: the three confidence checks run in the fixed order likely, definitely, possibly, each
  overwriting the value before it, so the last check that fires decides: 40 when a word of
  the possibly family occurs, else 85 when one of the definitely family occurs, else 65 when
  one of the likely family occurs, else 0. Hence a text with a word of the likely family and
  a word of the definitely family, and none of the possibly family, gets the computed
  confidence 85, not 65. The score stored in the result is 85 when the text is classified as
  manipulated and its complement 15 otherwise.
\<close>

theorem confidence_checks_in_order:
  "text_confidence L text =
     (if any_in possibly_words (lower L text) then 40
      else if any_in definitely_words (lower L text) then 85
      else if any_in likely_words (lower L text) then 65
      else 0)
   \<and> (any_in likely_words (lower L text)
        \<and> any_in definitely_words (lower L text)
        \<and> \<not> any_in possibly_words (lower L text) \<longrightarrow>
          text_confidence L text = 85
          \<and> text_confidence L text \<noteq> 65
          \<and> map_of (image_parse_text_response L text) ''confidence_score'' =
              Some (PInt (if any_in deepfake_keywords (lower L text) then 85 else 15)))"
  by (simp add: text_confidence_def image_parse_text_response_def)

theorem confidence_checks_in_order_witness:
  "any_in likely_words (lower demo_lib ''Obvious and likely'')
   \<and> any_in definitely_words (lower demo_lib ''Obvious and likely'')
   \<and> \<not> any_in possibly_words (lower demo_lib ''Obvious and likely'')
   \<and> text_confidence demo_lib ''Obvious and likely'' = 85
   \<and> map_of (image_parse_text_response demo_lib ''Obvious and likely'') ''confidence_score'' =
       Some (PInt 15)
   \<and> text_confidence demo_lib ''Obvious but possibly real'' = 40"
proof -
  have a: "any_in likely_words (lower demo_lib ''Obvious and likely'')"
    by (simp add: eval_defs)
  have b: "any_in definitely_words (lower demo_lib ''Obvious and likely'')"
    by (simp add: eval_defs)
  have c: "\<not> any_in possibly_words (lower demo_lib ''Obvious and likely'')"
    by (simp add: eval_defs)
  have d: "\<not> any_in deepfake_keywords (lower demo_lib ''Obvious and likely'')"
    by (simp add: eval_defs)
  have p: "any_in possibly_words (lower demo_lib ''Obvious but possibly real'')"
    by (simp add: eval_defs)
  from confidence_checks_in_order [of demo_lib "''Obvious and likely''"]
       confidence_checks_in_order [of demo_lib "''Obvious but possibly real''"] a b c d p
  show ?thesis
    by simp
qed

lemma text_confidence_cases:
  "text_confidence L text =
     (if any_in possibly_words (lower L text) then 40
      else if any_in definitely_words (lower L text) then 85
      else if any_in likely_words (lower L text) then 65
      else 0)"
  by (simp add: text_confidence_def)

text \<open>
  C9: a text with none of the classification keywords and none of the three confidence
  families is classified as not manipulated with the score 100, the complement of 0.
\<close>

theorem no_keyword_scores_100:
  assumes "\<not> any_in deepfake_keywords (lower L text)"
    and "\<not> any_in likely_words (lower L text)"
    and "\<not> any_in definitely_words (lower L text)"
    and "\<not> any_in possibly_words (lower L text)"
  shows "map_of (image_parse_text_response L text) ''is_deepfake'' = Some (PBool False)
       \<and> map_of (image_parse_text_response L text) ''confidence_score'' = Some (PInt 100)"
  using assms by (simp add: text_confidence_def image_parse_text_response_def)

theorem no_keyword_scores_100_witness:
  "\<not> any_in deepfake_keywords (lower demo_lib ''A cat on a sofa'')
   \<and> \<not> any_in likely_words (lower demo_lib ''A cat on a sofa'')
   \<and> \<not> any_in definitely_words (lower demo_lib ''A cat on a sofa'')
   \<and> \<not> any_in possibly_words (lower demo_lib ''A cat on a sofa'')
   \<and> map_of (image_parse_text_response demo_lib ''A cat on a sofa'') ''is_deepfake''
       = Some (PBool False)
   \<and> map_of (image_parse_text_response demo_lib ''A cat on a sofa'') ''confidence_score''
       = Some (PInt 100)"
proof -
  have a: "\<not> any_in deepfake_keywords (lower demo_lib ''A cat on a sofa'')"
    by (simp add: eval_defs)
  have b: "\<not> any_in likely_words (lower demo_lib ''A cat on a sofa'')"
    by (simp add: eval_defs)
  have c: "\<not> any_in definitely_words (lower demo_lib ''A cat on a sofa'')"
    by (simp add: eval_defs)
  have d: "\<not> any_in possibly_words (lower demo_lib ''A cat on a sofa'')"
    by (simp add: eval_defs)
  from no_keyword_scores_100 [OF a b c d] a b c d show ?thesis
    by simp
qed

section \<open>Extracting the JSON object\<close>

lemma str_find_range: "- 1 \<le> str_find s c"
  by (induction s) (auto simp: Let_def)

lemma str_find_first:
  "c \<notin> set pre \<Longrightarrow> str_find (pre @ c # rest) c = int (length pre)"
  by (induction pre) (auto simp: Let_def)

lemma str_rfind_none: "c \<notin> set s \<Longrightarrow> str_rfind s c = - 1"
  by (induction s) (auto simp: Let_def)

lemma str_rfind_range: "- 1 \<le> str_rfind s c"
  by (induction s) (auto simp: Let_def)

lemma str_rfind_last:
  "c \<notin> set post \<Longrightarrow> str_rfind (xs @ c # post) c = int (length xs)"
  by (induction xs) (auto simp: Let_def str_rfind_none)

lemma map_of_setdefault:
  "map_of (setdefault k v d) k' =
     (if k' = k then (case map_of d k of None \<Rightarrow> Some v | Some u \<Rightarrow> Some u)
      else map_of d k')"
  by (auto simp: setdefault_def map_add_def split: option.splits)

lemma map_of_setitem:
  "map_of (setitem k v d) k' = (if k' = k then Some v else map_of d k')"
  by (simp add: setitem_def update_conv')

lemma map_of_image_defaults:
  "map_of (image_defaults text obj) k =
     (case map_of obj k of
        Some v \<Rightarrow> Some v
      | None \<Rightarrow> map_of [(''is_deepfake'', PBool False),
                        (''confidence_score'', PInt 0),
                        (''analysis'', PStr text),
                        (''indicators'', PList []),
                        (''suspicious_areas'', PList [])] k)"
  by (simp add: image_defaults_def map_of_setdefault split: option.splits)

lemma brace_span:
  assumes "CHR ''{'' \<notin> set pre" and "CHR ''}'' \<notin> set post"
  shows "str_find (pre @ (CHR ''{'' # inner @ [CHR ''}'']) @ post) CHR ''{'' = int (length pre)"
    and "str_rfind (pre @ (CHR ''{'' # inner @ [CHR ''}'']) @ post) CHR ''}'' + 1
           = int (length pre) + int (length inner) + 2"
    and "str_slice (pre @ (CHR ''{'' # inner @ [CHR ''}'']) @ post)
           (int (length pre)) (int (length pre) + int (length inner) + 2)
           = CHR ''{'' # inner @ [CHR ''}'']"
proof -
  show "str_find (pre @ (CHR ''{'' # inner @ [CHR ''}'']) @ post) CHR ''{'' = int (length pre)"
    using assms(1) str_find_first [of "CHR ''{''" pre "inner @ [CHR ''}''] @ post"] by simp
  have "str_rfind ((pre @ CHR ''{'' # inner) @ CHR ''}'' # post) CHR ''}''
          = int (length (pre @ CHR ''{'' # inner))"
    using assms(2) by (rule str_rfind_last)
  then show "str_rfind (pre @ (CHR ''{'' # inner @ [CHR ''}'']) @ post) CHR ''}'' + 1
           = int (length pre) + int (length inner) + 2"
    by simp
  show "str_slice (pre @ (CHR ''{'' # inner @ [CHR ''}'']) @ post)
           (int (length pre)) (int (length pre) + int (length inner) + 2)
           = CHR ''{'' # inner @ [CHR ''}'']"
  proof -
    have n: "nat (int (length inner) + 2) = length (CHR ''{'' # inner @ [CHR ''}''])"
      by simp
    have "take (length (CHR ''{'' # inner @ [CHR ''}'']))
            ((CHR ''{'' # inner @ [CHR ''}'']) @ post) = CHR ''{'' # inner @ [CHR ''}'']"
      by (rule append_eq_conv_conj [THEN iffD1, THEN conjunct1, symmetric]) simp
    then show ?thesis
      unfolding str_slice_def using n by simp
  qed
qed

text \<open>
  C1: when the reply is some prose without an opening brace, then a brace-delimited span that
  \<open>json.loads\<close> parses to an object, then some prose without a closing brace, the result is
  that object with the five defaults added for the keys it lacks: every key of the object
  keeps the object's value, whatever it is.
\<close>

theorem json_object_is_result:
  assumes "CHR ''{'' \<notin> set pre"
    and "CHR ''}'' \<notin> set post"
    and "json_loads L (CHR ''{'' # inner @ [CHR ''}'']) = Parsed obj"
  shows "\<exists>result.
           image_analyze_response L (pre @ (CHR ''{'' # inner @ [CHR ''}'']) @ post)
             = Inr result
         \<and> (\<forall>k. map_of result k =
                (case map_of obj k of
                   Some v \<Rightarrow> Some v
                 | None \<Rightarrow>
                     map_of [(''is_deepfake'', PBool False),
                             (''confidence_score'', PInt 0),
                             (''analysis'', PStr (pre @ (CHR ''{'' # inner @ [CHR ''}'']) @ post)),
                             (''indicators'', PList []),
                             (''suspicious_areas'', PList [])] k))"
proof -
  let ?text = "pre @ (CHR ''{'' # inner @ [CHR ''}'']) @ post"
  note span = brace_span [OF assms(1) assms(2), of inner]
  have "image_analyze_response L ?text = Inr (image_defaults ?text obj)"
    unfolding image_analyze_response_def Let_def span using assms(3) by simp
  then show ?thesis
    using map_of_image_defaults by blast
qed

theorem json_object_is_result_witness:
  \<open>CHR ''{'' \<notin> set ''Sure: ''
   \<and> CHR ''}'' \<notin> set '' done''
   \<and> json_loads demo_lib (CHR ''{'' # ''"is_deepfake": true'' @ [CHR ''}''])
       = Parsed [(''is_deepfake'', PBool True)]
   \<and> (\<exists>result. image_analyze_response demo_lib ''Sure: {"is_deepfake": true} done''
                   = Inr result
                \<and> map_of result ''is_deepfake'' = Some (PBool True)
                \<and> map_of result ''confidence_score'' = Some (PInt 0)
                \<and> map_of result ''analysis''
                    = Some (PStr ''Sure: {"is_deepfake": true} done''))\<close>
proof -
  have a: "CHR ''{'' \<notin> set ''Sure: ''" by simp
  have b: "CHR ''}'' \<notin> set '' done''" by simp
  have c: \<open>json_loads demo_lib (CHR ''{'' # ''"is_deepfake": true'' @ [CHR ''}''])
             = Parsed [(''is_deepfake'', PBool True)]\<close>
    by (simp add: demo_lib_def demo_loads_def)
  from json_object_is_result
         [where pre = "''Sure: ''" and post = "'' done''" and L = demo_lib
            and inner = \<open>''"is_deepfake": true''\<close>
            and obj = "[(''is_deepfake'', PBool True)]", OF a b c] a b c
  show ?thesis
    by auto
qed

section \<open>The frame sampler selects every interval-th frame\<close>

lemma sample_loop_eq:
  "sample_loop max_frames interval (int k) extracted frames rest =
     frames @ take (nat (max_frames - extracted))
                (map snd (filter (\<lambda>(i, frame). int i mod interval = 0) (enumerate k rest)))"
proof (induction rest arbitrary: k extracted frames)
  case Nil
  then show ?case by simp
next
  case (Cons frame rest)
  have step: "int k + 1 = int (Suc k)" by simp
  show ?case
  proof (cases "extracted < max_frames")
    case False
    then show ?thesis by simp
  next
    case True
    then have pos: "nat (max_frames - extracted) = Suc (nat (max_frames - (extracted + 1)))"
      by simp
    show ?thesis
    proof (cases "int k mod interval = 0")
      case hit: True
      then show ?thesis
        using True by (simp only: sample_loop.simps step Cons.IH pos enumerate_simps) simp
    next
      case miss: False
      then show ?thesis
        using True by (simp only: sample_loop.simps step Cons.IH enumerate_simps) simp
    qed
  qed
qed

lemma sample_loop_start:
  "sample_loop max_frames interval 0 0 [] xs =
     take (nat max_frames)
       (map snd (filter (\<lambda>(i, frame). int i mod interval = 0) (enumerate 0 xs)))"
  using sample_loop_eq [of max_frames interval 0 0 "[]" xs] by simp

text \<open>
  C8: for \<open>max_frames \<ge> 1\<close> the sampler returns nothing when the capture reports zero
  frames or is not opened; otherwise it returns, in stream order, the first \<open>max_frames\<close>
  of the frames whose position in the stream is divisible by
  \<open>max(1, total_frames // max_frames)\<close>. The result never has more than \<open>max_frames\<close>
  elements, and a capture that raises gives the empty list.
\<close>

theorem extract_frames_spec:
  assumes "1 \<le> max_frames"
  shows "extract_frames (Inr v) max_frames =
           (if cap_frame_count v = 0 \<or> \<not> opened v then []
            else take (nat max_frames)
                   (map snd (filter (\<lambda>(i, frame).
                                int i mod max 1 (cap_frame_count v div max_frames) = 0)
                             (enumerate 0 (stream v)))))
       \<and> length (extract_frames (cap :: string + 'a video) max_frames) \<le> nat max_frames
       \<and> extract_frames (Inl msg :: string + 'a video) max_frames = []"
proof -
  have a: "extract_frames (Inr v) max_frames =
           (if cap_frame_count v = 0 \<or> \<not> opened v then []
            else take (nat max_frames)
                   (map snd (filter (\<lambda>(i, frame).
                                int i mod max 1 (cap_frame_count v div max_frames) = 0)
                             (enumerate 0 (stream v)))))"
    using assms by (simp add: extract_frames_def Let_def sample_loop_start)
  have b: "length (extract_frames cap max_frames) \<le> nat max_frames"
    by (cases cap) (simp_all add: extract_frames_def Let_def sample_loop_start)
  have c: "extract_frames (Inl msg :: string + 'a video) max_frames = []"
    by (simp add: extract_frames_def)
  from a b c show ?thesis by blast
qed

theorem extract_frames_spec_witness:
  "(1::int) \<le> 2
   \<and> extract_frames (Inr \<lparr>opened = True, cap_frame_count = 6,
                           stream = [''f0'', ''f1'', ''f2'', ''f3'', ''f4'', ''f5'']\<rparr>) 2
       = [''f0'', ''f3'']"
proof -
  have h: "(1::int) \<le> 2" by simp
  from extract_frames_spec [OF h, of "\<lparr>opened = True, cap_frame_count = 6,
                           stream = [''f0'', ''f1'', ''f2'', ''f3'', ''f4'', ''f5'']\<rparr>"
         "Inl []" "[]"]
  show ?thesis by (auto simp add: enumerate_eq_zip upt_rec)
qed

section \<open>The range of the confidence score\<close>

lemma text_confidence_range:
  "0 \<le> text_confidence L text \<and> text_confidence L text \<le> 100"
  by (simp add: text_confidence_cases)

lemma image_heuristic_confidence:
  "\<exists>i. map_of (image_parse_text_response L text) ''confidence_score'' = Some (PInt i)
       \<and> 0 \<le> i \<and> i \<le> 100"
  using text_confidence_range [of L "text"]
  by (simp add: image_parse_text_response_def Let_def)

lemma num_int_le:
  assumes "num_val a \<le> 100"
  shows "num_int a \<le> 100"
proof (cases a)
  case (NInt i)
  with assms show ?thesis by simp
next
  case (NFloat x)
  with assms have x: "x \<le> 100" by simp
  show ?thesis
  proof (cases "0 \<le> x")
    case True
    have "\<lfloor>x\<rfloor> \<le> \<lfloor>100 :: rat\<rfloor>" using x by (rule floor_mono)
    with True NFloat show ?thesis by simp
  next
    case False
    then have "\<lceil>x\<rceil> \<le> \<lceil>0 :: rat\<rceil>" by (intro ceiling_mono) simp
    with False NFloat show ?thesis by simp
  qed
qed

lemma num_int_ge:
  assumes "0 \<le> num_val a"
  shows "0 \<le> num_int a"
  using assms by (cases a) simp_all

lemma fround_nonneg:
  assumes "mono (fround L)" and "fround L 0 = 0" and "0 \<le> x"
  shows "0 \<le> fround L x"
  using monoD [OF assms(1) assms(3)] assms(2) by simp

lemma fround_le_1:
  assumes "mono (fround L)" and "fround L 1 = 1" and "x \<le> 1"
  shows "fround L x \<le> 1"
  using monoD [OF assms(1) assms(3)] assms(2) by simp

lemma fround_le_100:
  assumes "mono (fround L)" and "fround L 100 = 100" and "x \<le> 100"
  shows "fround L x \<le> 100"
  using monoD [OF assms(1) assms(3)] assms(2) by simp

lemma ratio_nonneg:
  assumes "mono (fround L)" and "fround L 0 = 0"
  shows "0 \<le> num_val (if n > 0 then true_div L cnt n else NInt 0)"
  using fround_nonneg [OF assms, of "of_nat cnt / of_nat n"]
  by (simp add: true_div_def)

lemma scaled_nonneg:
  assumes "mono (fround L)" and "fround L 0 = 0" and "0 \<le> num_val a"
  shows "0 \<le> num_val (num_mul L a (NInt 100))"
proof (cases a)
  case (NInt i)
  with assms(3) show ?thesis by simp
next
  case (NFloat x)
  with assms(3) have "0 \<le> x * 100" by simp
  from fround_nonneg [OF assms(1) assms(2) this] NFloat show ?thesis by simp
qed

lemma inverse_le_100:
  assumes "mono (fround L)" and "fround L 1 = 1" and "fround L 100 = 100"
    and "0 \<le> num_val a"
  shows "num_val (num_mul L (num_sub L (NInt 1) a) (NInt 100)) \<le> 100"
proof (cases a)
  case (NInt i)
  with assms(4) show ?thesis by simp
next
  case (NFloat x)
  with assms(4) have "1 - x \<le> 1" by simp
  from fround_le_1 [OF assms(1) assms(2) this] have "fround L (1 - x) * 100 \<le> 100" by simp
  from fround_le_100 [OF assms(1) assms(3) this] NFloat show ?thesis by simp
qed

lemma video_heuristic_confidence:
  assumes "mono (fround L)" and "fround L 0 = 0" and "fround L 1 = 1"
    and "fround L 100 = 100"
  shows "\<exists>i. map_of (video_parse_text_response L text cnt n) ''confidence_score''
               = Some (PInt i)
       \<and> 0 \<le> i \<and> i \<le> 100"
proof -
  define ratio where "ratio = (if n > 0 then true_div L cnt n else NInt 0)"
  have nonneg: "0 \<le> num_val ratio"
    unfolding ratio_def using assms(1) assms(2) by (rule ratio_nonneg)
  define is_deepfake where
    "is_deepfake = (num_gt ratio (float_0_3 L) \<or> any_in video_keywords (lower L text))"
  define confidence where
    "confidence = (if is_deepfake then min 95 (num_int (num_mul L ratio (NInt 100)))
                   else max 5 (num_int (num_mul L (num_sub L (NInt 1) ratio) (NInt 100))))"
  have "0 \<le> num_int (num_mul L ratio (NInt 100))"
    by (rule num_int_ge) (rule scaled_nonneg [OF assms(1) assms(2) nonneg])
  moreover have "num_int (num_mul L (num_sub L (NInt 1) ratio) (NInt 100)) \<le> 100"
    by (rule num_int_le) (rule inverse_le_100 [OF assms(1) assms(3) assms(4) nonneg])
  ultimately have "0 \<le> confidence \<and> confidence \<le> 100"
    by (auto simp: confidence_def)
  moreover have "map_of (video_parse_text_response L text cnt n) ''confidence_score''
                   = Some (PInt confidence)"
    by (simp add: video_parse_text_response_def Let_def confidence_def is_deepfake_def
        ratio_def)
  ultimately show ?thesis by blast
qed

lemma min_95_range:
  assumes "0 \<le> num_val a"
  shows "in_0_100 (num_pyval (min_95 a))"
  using assms by (cases a) (auto simp: min_95_def in_0_100_def)

lemma video_default_range:
  assumes "mono (fround L)" and "fround L 0 = 0"
  shows "in_0_100 (num_pyval (min_95 (num_mul L (true_div L cnt n) (NInt 100))))"
proof -
  have "0 \<le> num_val (true_div L cnt n)"
    using fround_nonneg [OF assms, of "of_nat cnt / of_nat n"] by (simp add: true_div_def)
  from scaled_nonneg [OF assms this] show ?thesis by (rule min_95_range)
qed

section \<open>Results and the reply they are made from\<close>

lemma fst_analyze_image:
  "fst (analyze_image e w p) =
     (if \<not> validate_image e p then invalid_image_result
      else setitem ''file_path'' (PStr p)
             (setitem ''media_type'' (PStr ''image'') (fst (image_analyze e w p))))"
  by (simp add: analyze_image_def split: prod.splits)

lemma fst_analyze_video:
  "fst (analyze_video e w p m) =
     (if \<not> validate_video e p then invalid_video_result
      else setitem ''file_path'' (PStr p)
             (setitem ''media_type'' (PStr ''video'') (fst (video_analyze e w p m))))"
  by (simp add: analyze_video_def split: prod.splits)

lemma image_response_eq:
  assumes "image_analyze_response L t = Inr r"
  shows "r = image_defaults t
               (case reply_object L t of
                  Some obj \<Rightarrow> obj
                | None \<Rightarrow> image_parse_text_response L t)"
  using assms
  by (auto simp: image_analyze_response_def reply_object_def Let_def
      split: if_splits loads_result.splits)

lemma image_response_raises:
  assumes "image_analyze_response L t = Inl msg"
  shows "reply_object L t = None"
  using assms
  by (auto simp: image_analyze_response_def reply_object_def Let_def
      split: if_splits loads_result.splits)

lemma video_response_eq:
  assumes "video_analyze_response L t cnt details n = Inr r"
  shows "\<exists>fa. r = video_defaults L t cnt n
                    (setitem ''frame_analysis'' fa
                       (case reply_object L t of
                          Some obj \<Rightarrow> obj
                        | None \<Rightarrow> video_parse_text_response L t cnt n))"
  using assms
  by (auto simp: video_analyze_response_def reply_object_def Let_def
      split: if_splits loads_result.splits)

lemma video_response_raises:
  assumes "video_analyze_response L t cnt details n = Inl msg"
  shows "reply_object L t = None"
  using assms
  by (auto simp: video_analyze_response_def reply_object_def Let_def
      split: if_splits loads_result.splits)

lemma analyze_image_paths:
  "(image_reply e w p = None
      \<and> (fst (analyze_image e w p) = invalid_image_result
          \<or> (\<exists>msg. fst (analyze_image e w p) =
                setitem ''file_path'' (PStr p)
                  (setitem ''media_type'' (PStr ''image'') (image_error_result msg)))))
   \<or> (\<exists>t. image_reply e w p = Some t
          \<and> ((\<exists>msg. image_analyze_response (lib e) t = Inl msg
                 \<and> fst (analyze_image e w p) =
                     setitem ''file_path'' (PStr p)
                       (setitem ''media_type'' (PStr ''image'') (image_error_result msg)))
              \<or> (\<exists>r. image_analyze_response (lib e) t = Inr r
                    \<and> fst (analyze_image e w p) =
                        setitem ''file_path'' (PStr p)
                          (setitem ''media_type'' (PStr ''image'') r))))"
  by (auto simp: fst_analyze_image image_reply_def image_analyze_def Let_def
      split: option.splits sum.splits)

lemma analyze_video_paths:
  "(video_reply e w p m = None
      \<and> (fst (analyze_video e w p m) = invalid_video_result
          \<or> fst (analyze_video e w p m) =
                setitem ''file_path'' (PStr p)
                  (setitem ''media_type'' (PStr ''video'') no_frames_result)
          \<or> (\<exists>msg. fst (analyze_video e w p m) =
                setitem ''file_path'' (PStr p)
                  (setitem ''media_type'' (PStr ''video'') (video_error_result msg)))))
   \<or> (\<exists>t. video_reply e w p m = Some t
          \<and> ((\<exists>msg cnt details n. video_analyze_response (lib e) t cnt details n = Inl msg
                 \<and> fst (analyze_video e w p m) =
                     setitem ''file_path'' (PStr p)
                       (setitem ''media_type'' (PStr ''video'') (video_error_result msg)))
              \<or> (\<exists>r cnt details n. video_analyze_response (lib e) t cnt details n = Inr r
                    \<and> fst (analyze_video e w p m) =
                        setitem ''file_path'' (PStr p)
                          (setitem ''media_type'' (PStr ''video'') r))))"
proof (cases "validate_video e p")
  case False
  then show ?thesis by (simp add: fst_analyze_video video_reply_def)
next
  case valid: True
  define frames where "frames = extract_frames (capture e p) m"
  show ?thesis
  proof (cases "frames = []")
    case True
    then show ?thesis
      using valid
      by (simp add: fst_analyze_video video_reply_def video_analyze_def frames_def)
  next
    case some: False
    define s where
      "s = frame_loop e 0 frames
             \<lparr>ls_world = w\<lparr>tmp_files := tmp_files w @ frames\<rparr>,
              ls_frame_results = [], ls_suspicious_count = 0\<rparr>"
    show ?thesis
    proof (cases "generate e (calls (ls_world s))")
      case (Inl msg)
      then have "video_reply e w p m = None"
        and "fst (analyze_video e w p m) =
               setitem ''file_path'' (PStr p)
                 (setitem ''media_type'' (PStr ''video'') (video_error_result msg))"
        using valid some
        by (simp_all add: fst_analyze_video video_reply_def video_analyze_def Let_def
            frames_def [symmetric] s_def [symmetric])
      then show ?thesis by blast
    next
      case (Inr t)
      then have reply: "video_reply e w p m = Some t"
        using valid some
        by (simp add: video_reply_def Let_def frames_def [symmetric] s_def [symmetric])
      show ?thesis
      proof (cases "video_analyze_response (lib e) t (ls_suspicious_count s)
                      (ls_frame_results s) (length frames)")
        case (Inl msg)
        then have "fst (analyze_video e w p m) =
               setitem ''file_path'' (PStr p)
                 (setitem ''media_type'' (PStr ''video'') (video_error_result msg))"
          using valid some Inr
          by (simp add: fst_analyze_video video_analyze_def Let_def
              frames_def [symmetric] s_def [symmetric])
        with reply Inl show ?thesis by blast
      next
        case resp: (Inr r)
        then have "fst (analyze_video e w p m) =
               setitem ''file_path'' (PStr p)
                 (setitem ''media_type'' (PStr ''video'') r)"
          using valid some Inr
          by (simp add: fst_analyze_video video_analyze_def Let_def
              frames_def [symmetric] s_def [symmetric])
        with reply resp show ?thesis by blast
      qed
    qed
  qed
qed

section \<open>The confidence score of a result\<close>

lemma score_ok_stamp:
  "score_ok L reply (setitem ''file_path'' a (setitem ''media_type'' b r)) = score_ok L reply r"
  by (simp add: score_ok_def map_of_setitem split: option.splits)

lemma score_ok_zero:
  assumes "reply_field L reply ''confidence_score'' = None"
    and "map_of r ''confidence_score'' = Some (PInt 0)"
  shows "score_ok L reply r"
  using assms by (simp add: score_ok_def in_0_100_def)

lemma map_of_video_defaults_confidence:
  "map_of (video_defaults L t cnt n x) ''confidence_score'' =
     (case map_of x ''confidence_score'' of
        Some v \<Rightarrow> Some v
      | None \<Rightarrow> Some (num_pyval (min_95 (num_mul L (true_div L cnt n) (NInt 100)))))"
  by (simp add: video_defaults_def map_of_setdefault split: option.splits)

lemma image_response_score:
  assumes "image_analyze_response L t = Inr r"
  shows "score_ok L (Some t) r"
proof (cases "reply_object L t")
  case None
  obtain i where "map_of (image_parse_text_response L t) ''confidence_score'' = Some (PInt i)"
    and "0 \<le> i" and "i \<le> 100"
    using image_heuristic_confidence by blast
  then show ?thesis
    using image_response_eq [OF assms] None
    by (simp add: score_ok_def reply_field_def map_of_image_defaults in_0_100_def)
next
  case (Some obj)
  then show ?thesis
    using image_response_eq [OF assms]
    by (simp add: score_ok_def reply_field_def map_of_image_defaults in_0_100_def
        split: option.splits)
qed

lemma video_response_score:
  assumes "mono (fround L)" and "fround L 0 = 0" and "fround L 1 = 1"
    and "fround L 100 = 100"
    and "video_analyze_response L t cnt details n = Inr r"
  shows "score_ok L (Some t) r"
proof -
  from video_response_eq [OF assms(5)] obtain fa
    where r: "r = video_defaults L t cnt n
                    (setitem ''frame_analysis'' fa
                       (case reply_object L t of
                          Some obj \<Rightarrow> obj
                        | None \<Rightarrow> video_parse_text_response L t cnt n))"
    by blast
  have dflt: "in_0_100 (num_pyval (min_95 (num_mul L (true_div L cnt n) (NInt 100))))"
    using assms(1) assms(2) by (rule video_default_range)
  show ?thesis
  proof (cases "reply_object L t")
    case None
    obtain i
      where "map_of (video_parse_text_response L t cnt n) ''confidence_score'' = Some (PInt i)"
        and "0 \<le> i" and "i \<le> 100"
      using video_heuristic_confidence [OF assms(1-4)] by blast
    then show ?thesis
      using None
      by (simp add: r score_ok_def reply_field_def map_of_video_defaults_confidence
          map_of_setitem in_0_100_def)
  next
    case (Some obj)
    then show ?thesis
      using dflt
      by (simp add: r score_ok_def reply_field_def map_of_video_defaults_confidence
          map_of_setitem split: option.splits)
  qed
qed

text \<open>
  C2, as the code has it. The result of \<open>analyze_image\<close> and of \<open>analyze_video\<close> always
  has a \<open>confidence_score\<close>. When the request reached the remote model, the reply has a
  brace span that parses to an object and the object has a \<open>confidence_score\<close>, the result
  carries that value unchanged. On every other path (validation failure, caught error, no
  frames, both text heuristics, the video default \<open>min(95, ratio * 100)\<close>) the score lies
  in the range 0 to 100. Rounding is taken to be monotone and to leave 0, 1 and 100 as
  they are.
\<close>

theorem confidence_score_range:
  assumes "mono (fround (lib e))"
    and "fround (lib e) 0 = 0"
    and "fround (lib e) 1 = 1"
    and "fround (lib e) 100 = 100"
  shows "score_ok (lib e) (image_reply e w image_path) (fst (analyze_image e w image_path))
       \<and> score_ok (lib e) (video_reply e w video_path max_frames)
            (fst (analyze_video e w video_path max_frames))"
proof
  show "score_ok (lib e) (image_reply e w image_path) (fst (analyze_image e w image_path))"
    using analyze_image_paths [of e w image_path]
  proof (elim disjE conjE exE)
    assume "image_reply e w image_path = None"
      and "fst (analyze_image e w image_path) = invalid_image_result"
    then show ?thesis
      by (simp add: score_ok_def reply_field_def invalid_image_result_def in_0_100_def)
  next
    fix msg
    assume "image_reply e w image_path = None"
      and "fst (analyze_image e w image_path) =
             setitem ''file_path'' (PStr image_path)
               (setitem ''media_type'' (PStr ''image'') (image_error_result msg))"
    then show ?thesis
      by (simp add: score_ok_stamp)
         (simp add: score_ok_def reply_field_def image_error_result_def in_0_100_def)
  next
    fix t msg
    assume "image_reply e w image_path = Some t"
      and "image_analyze_response (lib e) t = Inl msg"
      and "fst (analyze_image e w image_path) =
             setitem ''file_path'' (PStr image_path)
               (setitem ''media_type'' (PStr ''image'') (image_error_result msg))"
    then show ?thesis
      using image_response_raises [of "lib e" t msg]
      by (simp add: score_ok_stamp)
         (simp add: score_ok_def reply_field_def image_error_result_def in_0_100_def)
  next
    fix t r
    assume "image_reply e w image_path = Some t"
      and "image_analyze_response (lib e) t = Inr r"
      and "fst (analyze_image e w image_path) =
             setitem ''file_path'' (PStr image_path)
               (setitem ''media_type'' (PStr ''image'') r)"
    then show ?thesis
      using image_response_score [of "lib e" t r] by (simp add: score_ok_stamp)
  qed
  show "score_ok (lib e) (video_reply e w video_path max_frames)
            (fst (analyze_video e w video_path max_frames))"
    using analyze_video_paths [of e w video_path max_frames]
  proof (elim disjE conjE exE)
    assume "video_reply e w video_path max_frames = None"
      and "fst (analyze_video e w video_path max_frames) = invalid_video_result"
    then show ?thesis
      by (simp add: score_ok_def reply_field_def invalid_video_result_def in_0_100_def)
  next
    assume "video_reply e w video_path max_frames = None"
      and "fst (analyze_video e w video_path max_frames) =
             setitem ''file_path'' (PStr video_path)
               (setitem ''media_type'' (PStr ''video'') no_frames_result)"
    then show ?thesis
      by (simp add: score_ok_stamp)
         (simp add: score_ok_def reply_field_def no_frames_result_def in_0_100_def)
  next
    fix msg
    assume "video_reply e w video_path max_frames = None"
      and "fst (analyze_video e w video_path max_frames) =
             setitem ''file_path'' (PStr video_path)
               (setitem ''media_type'' (PStr ''video'') (video_error_result msg))"
    then show ?thesis
      by (simp add: score_ok_stamp)
         (simp add: score_ok_def reply_field_def video_error_result_def in_0_100_def)
  next
    fix t msg cnt details n
    assume "video_reply e w video_path max_frames = Some t"
      and "video_analyze_response (lib e) t cnt details n = Inl msg"
      and "fst (analyze_video e w video_path max_frames) =
             setitem ''file_path'' (PStr video_path)
               (setitem ''media_type'' (PStr ''video'') (video_error_result msg))"
    then show ?thesis
      using video_response_raises [of "lib e" t cnt details n msg]
      by (simp add: score_ok_stamp)
         (simp add: score_ok_def reply_field_def video_error_result_def in_0_100_def)
  next
    fix t r cnt details n
    assume "video_reply e w video_path max_frames = Some t"
      and "video_analyze_response (lib e) t cnt details n = Inr r"
      and "fst (analyze_video e w video_path max_frames) =
             setitem ''file_path'' (PStr video_path)
               (setitem ''media_type'' (PStr ''video'') r)"
    then show ?thesis
      using video_response_score [OF assms, of t cnt details n r]
      by (simp add: score_ok_stamp)
  qed
qed

lemmas facade_defs =
  fst_analyze_image fst_analyze_video validate_image_def validate_video_def is_image_def
  is_video_def demo_env_def demo_lib_def demo_capture_def demo_loads_def image_extensions_def
  video_extensions_def ascii_lower_def ascii_lower_char_def world0_def

theorem confidence_score_range_witness:
  "mono (fround (lib (demo_env (\<lambda>n. Inr ''Definitely fake''))))
   \<and> fround (lib (demo_env (\<lambda>n. Inr ''Definitely fake''))) 0 = 0
   \<and> fround (lib (demo_env (\<lambda>n. Inr ''Definitely fake''))) 1 = 1
   \<and> fround (lib (demo_env (\<lambda>n. Inr ''Definitely fake''))) 100 = 100
   \<and> image_reply (demo_env (\<lambda>n. Inr ''Definitely fake'')) world0 ''face.png''
       = Some ''Definitely fake''
   \<and> reply_field demo_lib (Some ''Definitely fake'') ''confidence_score'' = None
   \<and> score_ok demo_lib (Some ''Definitely fake'')
        (fst (analyze_image (demo_env (\<lambda>n. Inr ''Definitely fake'')) world0 ''face.png''))
   \<and> map_of (fst (analyze_image (demo_env (\<lambda>n. Inr ''Definitely fake'')) world0 ''face.png''))
        ''confidence_score'' = Some (PInt 85)"
proof -
  let ?e = "demo_env (\<lambda>n. Inr ''Definitely fake'')"
  have a: "mono (fround (lib ?e))"
    by (simp add: demo_env_def demo_lib_def mono_def)
  have b: "fround (lib ?e) 0 = 0" "fround (lib ?e) 1 = 1" "fround (lib ?e) 100 = 100"
    by (simp_all add: demo_env_def demo_lib_def)
  have r: "image_reply ?e world0 ''face.png'' = Some ''Definitely fake''"
    by (simp add: image_reply_def facade_defs)
  have l: "lib ?e = demo_lib"
    by (simp add: demo_env_def)
  have f: "reply_field demo_lib (Some ''Definitely fake'') ''confidence_score'' = None"
    by (simp add: reply_field_def reply_object_def)
  have v: "map_of (fst (analyze_image ?e world0 ''face.png'')) ''confidence_score''
             = Some (PInt 85)"
    by (simp add: facade_defs image_analyze_def image_analyze_response_def
        image_parse_text_response_def text_confidence_def eval_defs image_defaults_def
        map_of_setdefault map_of_setitem)
  from confidence_score_range [OF a b, of world0 "''face.png''" "''clip.mp4''" 10] r l
  have "score_ok demo_lib (Some ''Definitely fake'') (fst (analyze_image ?e world0 ''face.png''))"
    by simp
  with a b r f v show ?thesis by blast
qed

text \<open>
  C2 as stated fails on the JSON path: a reply whose object says 150 gives the score 150.
\<close>

theorem model_confidence_passes_unclamped:
  \<open>image_reply (demo_env (\<lambda>n. Inr ''{"confidence_score": 150}'')) world0 ''face.png''
     = Some ''{"confidence_score": 150}''
   \<and> map_of (fst (analyze_image (demo_env (\<lambda>n. Inr ''{"confidence_score": 150}'')) world0
                  ''face.png''))
      ''confidence_score'' = Some (PInt 150)
   \<and> \<not> in_0_100 (PInt 150)\<close>
  by (simp add: image_reply_def facade_defs image_analyze_def image_analyze_response_def
      str_slice_def image_defaults_def map_of_setdefault map_of_setitem in_0_100_def)

section \<open>Batches\<close>

lemma in_order_length: "length (fst (in_order f w xs)) = length xs"
proof (induction xs arbitrary: w)
  case Nil
  then show ?case by simp
next
  case (Cons x xs)
  obtain y w1 where step: "f w x = (y, w1)" by (cases "f w x")
  obtain ys w2 where tail: "in_order f w1 xs = (ys, w2)" by (cases "in_order f w1 xs")
  from Cons.IH [of w1] tail have "length ys = length xs" by simp
  with step tail show ?case by simp
qed

lemma in_order_member:
  "r \<in> set (fst (in_order f w xs)) \<Longrightarrow> \<exists>w' x. x \<in> set xs \<and> r = fst (f w' x)"
proof (induction xs arbitrary: w)
  case Nil
  then show ?case by simp
next
  case (Cons x xs)
  obtain y w1 where step: "f w x = (y, w1)" by (cases "f w x")
  obtain ys w2 where tail: "in_order f w1 xs = (ys, w2)" by (cases "in_order f w1 xs")
  from Cons.prems step tail have "r = y \<or> r \<in> set ys" by simp
  then show ?case
  proof
    assume "r = y"
    with step have "r = fst (f w x)" by simp
    then show ?thesis by auto
  next
    assume "r \<in> set ys"
    with tail have "r \<in> set (fst (in_order f w1 xs))" by simp
    from Cons.IH [OF this] show ?thesis by auto
  qed
qed

lemma batch_loop_in_order:
  "batch_loop e media_type file_paths (results, w) =
     (case in_order (batch_step e media_type) w file_paths of
        (rs, w') \<Rightarrow> (results @ rs, w'))"
proof (induction file_paths arbitrary: results w)
  case Nil
  then show ?case by simp
next
  case (Cons file_path rest)
  obtain r w1 where step: "batch_step e media_type w file_path = (r, w1)"
    by (cases "batch_step e media_type w file_path")
  obtain rs w2 where tail: "in_order (batch_step e media_type) w1 rest = (rs, w2)"
    by (cases "in_order (batch_step e media_type) w1 rest")
  from Cons.IH [of "results @ [r]" w1] step tail show ?case by simp
qed

lemma batch_analyze_in_order:
  "batch_analyze e w file_paths media_type = in_order (batch_step e media_type) w file_paths"
  by (simp add: batch_analyze_def batch_loop_in_order split: prod.splits)

text \<open>
  C10: \<open>batch_analyze\<close> returns one result per path, in the order of the paths, each
  computed by the loop body in the world the previous path left; for a media type other
  than \<open>auto\<close> and \<open>image\<close> the loop body is \<open>analyze_video\<close> with its default frame cap,
  whatever the string is.
\<close>

theorem batch_routes_other_types_to_video:
  "length (fst (batch_analyze e w file_paths media_type)) = length file_paths
   \<and> batch_analyze e w file_paths media_type
       = in_order (batch_step e media_type) w file_paths
   \<and> (media_type \<noteq> ''auto'' \<and> media_type \<noteq> ''image'' \<longrightarrow>
        batch_analyze e w file_paths media_type
          = in_order (\<lambda>w file_path. analyze_video e w file_path 10) w file_paths)"
proof -
  have "batch_step e media_type = (\<lambda>w file_path. analyze_video e w file_path 10)"
    if "media_type \<noteq> ''auto''" and "media_type \<noteq> ''image''"
    using that by (intro ext) (simp add: batch_step_def)
  then show ?thesis
    by (simp add: batch_analyze_in_order in_order_length)
qed

theorem batch_routes_other_types_to_video_witness:
  "''banana'' \<noteq> ''auto'' \<and> ''banana'' \<noteq> ''image''
   \<and> batch_analyze (demo_env (\<lambda>n. Inl ''offline'')) world0 [''face.png'', ''notes.txt''] ''banana''
       = ([invalid_video_result, invalid_video_result], world0)"
proof -
  have h: "''banana'' \<noteq> ''auto'' \<and> ''banana'' \<noteq> ''image''" by simp
  from batch_routes_other_types_to_video
         [of "demo_env (\<lambda>n. Inl ''offline'')" world0 "[''face.png'', ''notes.txt'']" "''banana''"] h
  have "batch_analyze (demo_env (\<lambda>n. Inl ''offline'')) world0 [''face.png'', ''notes.txt''] ''banana''
          = in_order (\<lambda>w file_path. analyze_video (demo_env (\<lambda>n. Inl ''offline'')) w file_path 10)
              world0 [''face.png'', ''notes.txt'']"
    by blast
  also have "\<dots> = ([invalid_video_result, invalid_video_result], world0)"
    by (simp add: analyze_video_def validate_video_def is_video_def demo_env_def
        demo_lib_def video_extensions_def ascii_lower_def ascii_lower_char_def)
  finally show ?thesis using h by blast
qed

section \<open>Video analysis without frames, and frame files\<close>

text \<open>
  C5, as the code has it. When the sampler returns no frame, \<open>VideoAnalyzer.analyze\<close>
  returns at once, with no remote call and the world unchanged: not manipulated,
  confidence 0, the narrative \<open>Could not extract frames from video\<close>, a frame summary
  of 0 total and 0 suspicious frames, and no \<open>error\<close> key.
\<close>

theorem no_frames_short_circuit:
  assumes "extract_frames (capture e video_path) max_frames = []"
  shows "video_analyze e w video_path max_frames = (no_frames_result, w)
       \<and> calls (snd (video_analyze e w video_path max_frames)) = calls w
       \<and> map_of no_frames_result ''error'' = None
       \<and> map_of no_frames_result ''is_deepfake'' = Some (PBool False)
       \<and> map_of no_frames_result ''confidence_score'' = Some (PInt 0)
       \<and> map_of no_frames_result ''analysis'' = Some (PStr ''Could not extract frames from video'')
       \<and> map_of no_frames_result ''frame_analysis''
           = Some (PDict [(''total_frames'', PInt 0), (''suspicious_frames'', PInt 0)])"
  using assms by (simp add: video_analyze_def no_frames_result_def)

theorem no_frames_short_circuit_witness:
  "extract_frames (capture (demo_env (\<lambda>n. Inl ''offline'')) ''clip.mp4'') 0 = []
   \<and> video_analyze (demo_env (\<lambda>n. Inl ''offline'')) world0 ''clip.mp4'' 0
       = (no_frames_result, world0)"
proof -
  have h: "extract_frames (capture (demo_env (\<lambda>n. Inl ''offline'')) ''clip.mp4'') 0 = []"
    by (simp add: demo_env_def demo_capture_def extract_frames_def)
  from no_frames_short_circuit [OF h, of world0] h show ?thesis
    by blast
qed

text \<open>
  C5 as stated fails on the \<open>error\<close> field: \<open>clip.mp4\<close> passes validation, a frame cap
  of 0 makes the sampler return no frame, and the result has no \<open>error\<close> key.
\<close>

theorem no_frames_result_has_no_error:
  "validate_video (demo_env (\<lambda>n. Inl ''offline'')) ''clip.mp4''
   \<and> extract_frames (capture (demo_env (\<lambda>n. Inl ''offline'')) ''clip.mp4'') 0 = []
   \<and> map_of (fst (analyze_video (demo_env (\<lambda>n. Inl ''offline'')) world0 ''clip.mp4'' 0)) ''error''
       = None"
  by (simp add: facade_defs extract_frames_def video_analyze_def no_frames_result_def
      map_of_setitem)

text \<open>
  C6 at a failing input: \<open>clip.mp4\<close> gives one frame file. When the remote call for that
  frame raises, the handler records the error and the file stays on disk after the analysis;
  when the call succeeds, the file is removed.
\<close>

theorem failed_frame_file_is_left_behind:
  "tmp_files (snd (video_analyze
      (demo_env (\<lambda>n. if n = 0 then Inl ''quota exceeded'' else Inr ''No issues found''))
      world0 ''clip.mp4'' 10)) = [''frame0.jpg'']
   \<and> tmp_files (snd (video_analyze (demo_env (\<lambda>n. Inr ''No issues found''))
      world0 ''clip.mp4'' 10)) = []"
  by (simp add: video_analyze_def demo_env_def demo_capture_def extract_frames_def world0_def
      analyze_frame_def Let_def split: sum.splits)

section \<open>Results that report an error\<close>

lemma safe_defaults_stamp:
  "safe_defaults (setitem ''file_path'' a (setitem ''media_type'' b r)) = safe_defaults r"
  by (simp add: safe_defaults_def map_of_setitem)

lemma error_ok_stamp:
  "error_ok L reply (setitem ''file_path'' a (setitem ''media_type'' b r)) = error_ok L reply r"
  by (simp add: error_ok_def safe_defaults_stamp map_of_setitem split: option.splits)

lemma error_ok_safe:
  assumes "reply_field L reply ''error'' = None" and "safe_defaults r"
  shows "error_ok L reply r"
  using assms by (simp add: error_ok_def)

lemma safe_image_error_result: "safe_defaults (image_error_result msg)"
  by (simp add: safe_defaults_def image_error_result_def)

lemma safe_video_error_result: "safe_defaults (video_error_result msg)"
  by (simp add: safe_defaults_def video_error_result_def)

lemma safe_invalid_image_result: "safe_defaults invalid_image_result"
  by (simp add: safe_defaults_def invalid_image_result_def)

lemma safe_invalid_video_result: "safe_defaults invalid_video_result"
  by (simp add: safe_defaults_def invalid_video_result_def)

lemma image_response_error:
  assumes "image_analyze_response L t = Inr r"
  shows "error_ok L (Some t) r"
proof -
  have e: "map_of (image_parse_text_response L t) ''error'' = None"
    by (simp add: image_parse_text_response_def Let_def)
  show ?thesis
    using image_response_eq [OF assms] e
    by (cases "reply_object L t")
       (simp_all add: error_ok_def reply_field_def map_of_image_defaults
          split: option.splits)
qed

lemma video_response_error:
  assumes "video_analyze_response L t cnt details n = Inr r"
  shows "error_ok L (Some t) r"
proof -
  from video_response_eq [OF assms] obtain fa
    where r: "r = video_defaults L t cnt n
                    (setitem ''frame_analysis'' fa
                       (case reply_object L t of
                          Some obj \<Rightarrow> obj
                        | None \<Rightarrow> video_parse_text_response L t cnt n))"
    by blast
  have e: "map_of (video_parse_text_response L t cnt n) ''error'' = None"
    by (simp add: video_parse_text_response_def Let_def)
  have k: "map_of (video_defaults L t cnt n (setitem ''frame_analysis'' fa x)) ''error''
             = map_of x ''error''" for x
    by (simp add: video_defaults_def map_of_setdefault map_of_setitem)
  show ?thesis
    using e
    by (cases "reply_object L t")
       (simp_all add: r k error_ok_def reply_field_def split: option.splits)
qed

lemma analyze_image_error_ok:
  "error_ok (lib e) (image_reply e w p) (fst (analyze_image e w p))"
  using analyze_image_paths [of e w p]
proof (elim disjE conjE exE)
  assume "image_reply e w p = None"
    and "fst (analyze_image e w p) = invalid_image_result"
  then show ?thesis
    by (simp add: error_ok_safe reply_field_def safe_invalid_image_result)
next
  fix msg
  assume "image_reply e w p = None"
    and "fst (analyze_image e w p) =
           setitem ''file_path'' (PStr p)
             (setitem ''media_type'' (PStr ''image'') (image_error_result msg))"
  then show ?thesis
    by (simp add: error_ok_stamp error_ok_safe reply_field_def safe_image_error_result)
next
  fix t msg
  assume "image_reply e w p = Some t"
    and "image_analyze_response (lib e) t = Inl msg"
    and "fst (analyze_image e w p) =
           setitem ''file_path'' (PStr p)
             (setitem ''media_type'' (PStr ''image'') (image_error_result msg))"
  then show ?thesis
    using image_response_raises [of "lib e" t msg]
    by (simp add: error_ok_stamp error_ok_safe reply_field_def safe_image_error_result)
next
  fix t r
  assume "image_reply e w p = Some t"
    and "image_analyze_response (lib e) t = Inr r"
    and "fst (analyze_image e w p) =
           setitem ''file_path'' (PStr p) (setitem ''media_type'' (PStr ''image'') r)"
  then show ?thesis
    using image_response_error [of "lib e" t r] by (simp add: error_ok_stamp)
qed

lemma safe_no_frames_result: "map_of no_frames_result ''error'' = None"
  by (simp add: no_frames_result_def)

lemma analyze_video_error_ok:
  "error_ok (lib e) (video_reply e w p m) (fst (analyze_video e w p m))"
  using analyze_video_paths [of e w p m]
proof (elim disjE conjE exE)
  assume "video_reply e w p m = None"
    and "fst (analyze_video e w p m) = invalid_video_result"
  then show ?thesis
    by (simp add: error_ok_safe reply_field_def safe_invalid_video_result)
next
  assume "video_reply e w p m = None"
    and "fst (analyze_video e w p m) =
           setitem ''file_path'' (PStr p)
             (setitem ''media_type'' (PStr ''video'') no_frames_result)"
  then show ?thesis
    by (simp add: error_ok_stamp) (simp add: error_ok_def reply_field_def safe_no_frames_result)
next
  fix msg
  assume "video_reply e w p m = None"
    and "fst (analyze_video e w p m) =
           setitem ''file_path'' (PStr p)
             (setitem ''media_type'' (PStr ''video'') (video_error_result msg))"
  then show ?thesis
    by (simp add: error_ok_stamp error_ok_safe reply_field_def safe_video_error_result)
next
  fix t msg cnt details n
  assume "video_reply e w p m = Some t"
    and "video_analyze_response (lib e) t cnt details n = Inl msg"
    and "fst (analyze_video e w p m) =
           setitem ''file_path'' (PStr p)
             (setitem ''media_type'' (PStr ''video'') (video_error_result msg))"
  then show ?thesis
    using video_response_raises [of "lib e" t cnt details n msg]
    by (simp add: error_ok_stamp error_ok_safe reply_field_def safe_video_error_result)
next
  fix t r cnt details n
  assume "video_reply e w p m = Some t"
    and "video_analyze_response (lib e) t cnt details n = Inr r"
    and "fst (analyze_video e w p m) =
           setitem ''file_path'' (PStr p) (setitem ''media_type'' (PStr ''video'') r)"
  then show ?thesis
    using video_response_error [of "lib e" t cnt details n r] by (simp add: error_ok_stamp)
qed

text \<open>
  C7, as the code has it. For a result of \<open>analyze_image\<close> or \<open>analyze_video\<close>: when the
  request reached the remote model and the object of its reply has an \<open>error\<close> key, the
  result carries that value unchanged; on every other path a result with an \<open>error\<close> key
  carries the safe defaults (not manipulated, confidence 0, a non-empty narrative, an empty
  indicator list). Every entry of a batch is such a result for a path of the list, except
  the entry that the \<open>auto\<close> mode makes for a path that is neither image nor video, which
  holds the error and the path only.
\<close>

theorem error_results_carry_defaults:
  "error_ok (lib e) (image_reply e w image_path) (fst (analyze_image e w image_path))
   \<and> error_ok (lib e) (video_reply e w video_path max_frames)
        (fst (analyze_video e w video_path max_frames))
   \<and> (\<forall>r \<in> set (fst (batch_analyze e w file_paths media_type)).
        (\<exists>w' file_path.
           file_path \<in> set file_paths
           \<and> ((r = fst (analyze_image e w' file_path)
                 \<and> error_ok (lib e) (image_reply e w' file_path) r)
               \<or> (r = fst (analyze_video e w' file_path 10)
                   \<and> error_ok (lib e) (video_reply e w' file_path 10) r)))
        \<or> (media_type = ''auto''
            \<and> (\<exists>file_path.
                  file_path \<in> set file_paths
                  \<and> \<not> is_image e file_path
                  \<and> \<not> is_video e file_path
                  \<and> r = unknown_type_entry file_path)))"
proof (intro conjI ballI)
  show "error_ok (lib e) (image_reply e w image_path) (fst (analyze_image e w image_path))"
    by (rule analyze_image_error_ok)
  show "error_ok (lib e) (video_reply e w video_path max_frames)
        (fst (analyze_video e w video_path max_frames))"
    by (rule analyze_video_error_ok)
next
  fix r
  assume "r \<in> set (fst (batch_analyze e w file_paths media_type))"
  then obtain w' x where x: "x \<in> set file_paths"
    and r: "r = fst (batch_step e media_type w' x)"
    using in_order_member [of r "batch_step e media_type" w file_paths]
    by (auto simp: batch_analyze_in_order)
  consider "r = fst (analyze_image e w' x)" | "r = fst (analyze_video e w' x 10)"
    | "media_type = ''auto''" "\<not> is_image e x" "\<not> is_video e x" "r = unknown_type_entry x"
    using r by (auto simp: batch_step_def unknown_type_entry_def split: if_splits)
  then show "(\<exists>w' file_path.
           file_path \<in> set file_paths
           \<and> ((r = fst (analyze_image e w' file_path)
                 \<and> error_ok (lib e) (image_reply e w' file_path) r)
               \<or> (r = fst (analyze_video e w' file_path 10)
                   \<and> error_ok (lib e) (video_reply e w' file_path 10) r)))
        \<or> (media_type = ''auto''
            \<and> (\<exists>file_path.
                  file_path \<in> set file_paths
                  \<and> \<not> is_image e file_path
                  \<and> \<not> is_video e file_path
                  \<and> r = unknown_type_entry file_path))"
  proof cases
    case 1
    with x analyze_image_error_ok [of e w' x] show ?thesis by auto
  next
    case 2
    with x analyze_video_error_ok [of e w' x 10] show ?thesis by auto
  next
    case 3
    with x show ?thesis by blast
  qed
qed

theorem error_results_carry_defaults_witness:
  "image_reply (demo_env (\<lambda>n. Inl ''offline'')) world0 ''notes.txt'' = None
   \<and> map_of (fst (analyze_image (demo_env (\<lambda>n. Inl ''offline'')) world0 ''notes.txt'')) ''error''
       = Some (PStr ''File validation failed'')
   \<and> safe_defaults (fst (analyze_image (demo_env (\<lambda>n. Inl ''offline'')) world0 ''notes.txt''))"
proof -
  let ?e = "demo_env (\<lambda>n. Inl ''offline'')"
  have n: "image_reply ?e world0 ''notes.txt'' = None"
    by (simp add: image_reply_def facade_defs)
  have h: "map_of (fst (analyze_image ?e world0 ''notes.txt'')) ''error''
             = Some (PStr ''File validation failed'')"
    by (simp add: facade_defs invalid_image_result_def)
  from error_results_carry_defaults [of ?e world0 "''notes.txt''" "''clip.mp4''" 10 "[]" "''auto''"]
  have "error_ok (lib ?e) (image_reply ?e world0 ''notes.txt'')
          (fst (analyze_image ?e world0 ''notes.txt''))"
    by blast
  with n h have "safe_defaults (fst (analyze_image ?e world0 ''notes.txt''))"
    by (simp add: error_ok_def reply_field_def)
  with n h show ?thesis by blast
qed

text \<open>
  C7 as stated fails in a batch: in \<open>auto\<close> mode a path that is neither image nor video
  gives an entry with \<open>error\<close> and \<open>file_path\<close> and no other field.
\<close>

theorem unknown_type_entry_lacks_defaults:
  "fst (batch_analyze (demo_env (\<lambda>n. Inl ''offline'')) world0 [''notes.txt''] ''auto'')
     = [[(''error'', PStr ''Unknown file type''), (''file_path'', PStr ''notes.txt'')]]
   \<and> map_of [(''error'', PStr ''Unknown file type''), (''file_path'', PStr ''notes.txt'')]
        ''is_deepfake'' = None
   \<and> \<not> safe_defaults [(''error'', PStr ''Unknown file type''), (''file_path'', PStr ''notes.txt'')]"
  by (simp add: batch_analyze_def batch_step_def is_image_def is_video_def demo_env_def
      demo_lib_def image_extensions_def video_extensions_def ascii_lower_def
      ascii_lower_char_def safe_defaults_def)

end
